theory Spec2Isabelle
  imports Main "HOL-Library.Char_ord" "HOL-Library.List_Lexorder" "HOL-Library.Multiset"
begin

section \<open>Python values\<close>

text \<open>
  The dictionaries that \<^verbatim>\<open>ZKMLSummarizer\<close> reads and builds are typed
  \<^verbatim>\<open>Dict[str, Any]\<close>. Their values are modelled by the JSON-like universe below:
  \<^verbatim>\<open>None\<close>, booleans, unbounded integers, strings, lists and string-keyed
  dictionaries (an association list in insertion order; a Python dictionary never holds a
  key twice). Floats are left out. A Python \<^verbatim>\<open>str\<close> is a \<open>string\<close>, one
  \<open>char\<close> per code point, so the code points are those below 256.
\<close>

datatype pyval =
    PyNone
  | PyBool bool
  | PyInt int
  | PyStr string
  | PyList "pyval list"
  | PyDict "(string \<times> pyval) list"

type_synonym pydict = "(string \<times> pyval) list"

text \<open>
  Exceptions are values. \<open>RuntimeError e\<close> is the
  \<^verbatim>\<open>RuntimeError(f"Failed to ...: {str(e)}")\<close> that the source raises from an
  \<^verbatim>\<open>except Exception as e\<close> block; it keeps the exception it wraps.
\<close>

datatype exn =
    KeyError pyval
  | IndexError
  | TypeError
  | ValueError
  | AttributeError
  | RuntimeError exn

subsection \<open>\<^verbatim>\<open>str\<close> and \<^verbatim>\<open>repr\<close>\<close>

definition digit_char :: "nat \<Rightarrow> char" where
  "digit_char d = (''0123456789abcdef'' ! d)"

function dec_nat :: "nat \<Rightarrow> string" where
  "dec_nat n = (if n < 10 then [digit_char n] else dec_nat (n div 10) @ [digit_char (n mod 10)])"
  by pat_completeness auto
termination
  by (relation "measure id") auto

declare dec_nat.simps [simp del]

definition str_int :: "int \<Rightarrow> string" where
  "str_int i = (if i < 0 then CHR ''-'' # dec_nat (nat (- i)) else dec_nat (nat i))"

definition hex_escape :: "char \<Rightarrow> string" where
  "hex_escape c = [CHR 0x5C, CHR ''x'', digit_char (of_char c div 16), digit_char (of_char c mod 16)]"

text \<open>
  \<^verbatim>\<open>str.isprintable\<close> on one code point below 256: the ASCII range from the
  space to the tilde, and the Latin-1 range from U+00A1 on except the soft hyphen U+00AD.
\<close>

definition printable :: "char \<Rightarrow> bool" where
  "printable c =
     (let n = (of_char c :: nat)
      in (32 \<le> n \<and> n < 127) \<or> (161 \<le> n \<and> n \<noteq> 173))"

definition repr_char :: "char \<Rightarrow> char \<Rightarrow> string" where
  "repr_char q c =
     (if c = q \<or> c = CHR 0x5C then [CHR 0x5C, c]
      else if c = CHR 0x09 then [CHR 0x5C, CHR ''t'']
      else if c = CHR 0x0A then [CHR 0x5C, CHR ''n'']
      else if c = CHR 0x0D then [CHR 0x5C, CHR ''r'']
      else if printable c then [c]
      else hex_escape c)"

text \<open>
  \<^verbatim>\<open>repr\<close> of a string quotes it with the apostrophe, unless the string has an
  apostrophe and no double quote.
\<close>

definition repr_str :: "string \<Rightarrow> string" where
  "repr_str s =
     (let q = (if CHR 0x27 \<in> set s \<and> CHR 0x22 \<notin> set s then CHR 0x22 else CHR 0x27)
      in [q] @ concat (map (repr_char q) s) @ [q])"

fun join :: "string \<Rightarrow> string list \<Rightarrow> string" where
  "join sep [] = []"
| "join sep [x] = x"
| "join sep (x # y # ys) = x @ sep @ join sep (y # ys)"

fun py_repr :: "pyval \<Rightarrow> string" where
  "py_repr PyNone = ''None''"
| "py_repr (PyBool b) = (if b then ''True'' else ''False'')"
| "py_repr (PyInt i) = str_int i"
| "py_repr (PyStr s) = repr_str s"
| "py_repr (PyList xs) = ''['' @ join '', '' (map py_repr xs) @ '']''"
| "py_repr (PyDict kvs) =
     ''{'' @ join '', '' (map (\<lambda>kv. repr_str (fst kv) @ '': '' @ py_repr (snd kv)) kvs) @ ''}''"

text \<open>\<^verbatim>\<open>str(v)\<close>, which is also what an f-string field \<^verbatim>\<open>{v}\<close> inserts.\<close>

definition py_str :: "pyval \<Rightarrow> string" where
  "py_str v = (case v of PyStr s \<Rightarrow> s | _ \<Rightarrow> py_repr v)"

subsection \<open>Subscripts, slices, \<^verbatim>\<open>len\<close>, \<^verbatim>\<open>items\<close>\<close>

text \<open>\<^verbatim>\<open>d[k]\<close> on a dictionary with a string key.\<close>

definition getitem :: "pydict \<Rightarrow> string \<Rightarrow> exn + pyval" where
  "getitem d k = (case map_of d k of None \<Rightarrow> Inl (KeyError (PyStr k)) | Some v \<Rightarrow> Inr v)"

text \<open>\<^verbatim>\<open>k in d\<close> on a dictionary.\<close>

definition contains :: "pydict \<Rightarrow> string \<Rightarrow> bool" where
  "contains d k = (map_of d k \<noteq> None)"

text \<open>
  \<^verbatim>\<open>v[i]\<close> with a literal index \<open>i \<ge> 0\<close>: an element of a list, a one-character
  string of a string, \<^verbatim>\<open>KeyError\<close> on a dictionary (its keys are strings), and
  \<^verbatim>\<open>TypeError\<close> on a value that is not subscriptable.
\<close>

definition index :: "pyval \<Rightarrow> nat \<Rightarrow> exn + pyval" where
  "index v i =
     (case v of
        PyList xs \<Rightarrow> if i < length xs then Inr (xs ! i) else Inl IndexError
      | PyStr s \<Rightarrow> if i < length s then Inr (PyStr [s ! i]) else Inl IndexError
      | PyDict kvs \<Rightarrow> Inl (KeyError (PyInt (int i)))
      | _ \<Rightarrow> Inl TypeError)"

text \<open>
  \<^verbatim>\<open>v[:n]\<close>: a prefix of a string or of a list; a dictionary and the scalars
  raise (\<^verbatim>\<open>TypeError\<close>).
\<close>

definition slice_to :: "nat \<Rightarrow> pyval \<Rightarrow> exn + pyval" where
  "slice_to n v =
     (case v of
        PyStr s \<Rightarrow> Inr (PyStr (take n s))
      | PyList xs \<Rightarrow> Inr (PyList (take n xs))
      | _ \<Rightarrow> Inl TypeError)"

definition len :: "pyval \<Rightarrow> exn + nat" where
  "len v =
     (case v of
        PyList xs \<Rightarrow> Inr (length xs)
      | PyStr s \<Rightarrow> Inr (length s)
      | PyDict kvs \<Rightarrow> Inr (length kvs)
      | _ \<Rightarrow> Inl TypeError)"

text \<open>\<^verbatim>\<open>v.items()\<close>: only a dictionary has the method.\<close>

definition items :: "pyval \<Rightarrow> exn + pydict" where
  "items v = (case v of PyDict kvs \<Rightarrow> Inr kvs | _ \<Rightarrow> Inl AttributeError)"

text \<open>\<^verbatim>\<open>v == s\<close> for a string \<open>s\<close>: only an equal string is equal to a string.\<close>

definition eq_str :: "pyval \<Rightarrow> string \<Rightarrow> bool" where
  "eq_str v s = (v = PyStr s)"

text \<open>Sequencing of computations that may raise, and Python's short-circuit \<^verbatim>\<open>and\<close>.\<close>

definition bind :: "exn + 'a \<Rightarrow> ('a \<Rightarrow> exn + 'b) \<Rightarrow> exn + 'b" where
  "bind m f = (case m of Inl e \<Rightarrow> Inl e | Inr x \<Rightarrow> f x)"

definition and_then :: "exn + bool \<Rightarrow> exn + bool \<Rightarrow> exn + bool" where
  "and_then a b = bind a (\<lambda>x. if x then b else Inr False)"

section \<open>The commitment\<close>

text \<open>
  The digest \<^verbatim>\<open>hashlib.sha256(s.encode('utf-8')).hexdigest()\<close> is a parameter
  \<open>H\<close> of every function that calls it. What the library promises of it is
  \<open>hexdigest H\<close>: 64 lower-case hexadecimal digits.
\<close>

definition hexdigest :: "(string \<Rightarrow> string) \<Rightarrow> bool" where
  "hexdigest H = (\<forall>s. length (H s) = 64 \<and> set (H s) \<subseteq> set ''0123456789abcdef'')"

text \<open>
  \<^verbatim>\<open>''.join(f"{k}:{v}" for k, v in sorted(inputs.items()))\<close>, digested. The items
  are pairs; their keys differ, so \<^verbatim>\<open>sorted\<close> orders them by key alone.
\<close>

definition canonical :: "pydict \<Rightarrow> string" where
  "canonical inputs = concat (map (\<lambda>kv. fst kv @ '':'' @ py_str (snd kv)) (sort_key fst inputs))"

definition generate_commitment :: "(string \<Rightarrow> string) \<Rightarrow> pyval \<Rightarrow> exn + string" where
  "generate_commitment H inputs = bind (items inputs) (\<lambda>kvs. Inr (H (canonical kvs)))"

definition verify_commitment :: "(string \<Rightarrow> string) \<Rightarrow> pyval \<Rightarrow> pyval \<Rightarrow> exn + bool" where
  "verify_commitment H commitment inputs =
     bind (generate_commitment H inputs) (\<lambda>expected. Inr (eq_str commitment expected))"

section \<open>The proof points\<close>

text \<open>
  \<^verbatim>\<open>int(s, 16)\<close> on the strings it is called with here, the first eight characters
  of a digest: a non-empty string of hexadecimal digits has its value, and a string with
  another character in it is a \<^verbatim>\<open>ValueError\<close> (the sign, the prefix, the
  underscores and the blanks that Python also reads do not occur in a digest).
\<close>

definition hex_val :: "char \<Rightarrow> nat option" where
  "hex_val c =
     (let n = (of_char c :: nat)
      in if 48 \<le> n \<and> n \<le> 57 then Some (n - 48)
         else if 97 \<le> n \<and> n \<le> 102 then Some (n - 87)
         else if 65 \<le> n \<and> n \<le> 70 then Some (n - 55)
         else None)"

fun parse_hex :: "int \<Rightarrow> string \<Rightarrow> exn + int" where
  "parse_hex acc [] = Inr acc"
| "parse_hex acc (c # cs) =
     (case hex_val c of None \<Rightarrow> Inl ValueError | Some d \<Rightarrow> parse_hex (16 * acc + int d) cs)"

definition int_base16 :: "string \<Rightarrow> exn + int" where
  "int_base16 s = (if s = [] then Inl ValueError else parse_hex 0 s)"

text \<open>
  The global generator of \<^verbatim>\<open>numpy.random\<close> is a state \<open>'g\<close> that every call
  reads and replaces. The library is a parameter: \<open>seeded R n\<close> is the state that
  \<^verbatim>\<open>np.random.seed(n)\<close> installs, and \<open>randint R lo hi g\<close> is the value that
  \<^verbatim>\<open>np.random.randint(lo, hi)\<close> returns in state \<open>g\<close>, with the state after it.
  \<^verbatim>\<open>np.random.seed\<close> takes a seed from 0 to \<open>2\<^sup>3\<^sup>2 - 1\<close> and raises
  \<^verbatim>\<open>ValueError("Seed must be between 0 and 2**32 - 1")\<close> on any other integer,
  leaving the state as it was.
\<close>

record 'g np_random =
  seeded :: "nat \<Rightarrow> 'g"
  randint :: "int \<Rightarrow> int \<Rightarrow> 'g \<Rightarrow> int \<times> 'g"

text \<open>What the library promises of \<^verbatim>\<open>randint(lo, hi)\<close>: a value in \<open>[lo, hi)\<close>.\<close>

definition randint_in_range :: "'g np_random \<Rightarrow> bool" where
  "randint_in_range R = (\<forall>lo hi g. lo < hi \<longrightarrow> lo \<le> fst (randint R lo hi g) \<and> fst (randint R lo hi g) < hi)"

type_synonym ('a, 'g) rand = "'g \<Rightarrow> (exn + 'a) \<times> 'g"

definition random_seed :: "'g np_random \<Rightarrow> int \<Rightarrow> (unit, 'g) rand" where
  "random_seed R seed g =
     (if 0 \<le> seed \<and> seed \<le> 2 ^ 32 - 1 then (Inr (), seeded R (nat seed)) else (Inl ValueError, g))"

definition lift :: "exn + 'a \<Rightarrow> ('a, 'g) rand" where
  "lift m g = (m, g)"

definition bind_rand :: "('a, 'g) rand \<Rightarrow> ('a \<Rightarrow> ('b, 'g) rand) \<Rightarrow> ('b, 'g) rand" where
  "bind_rand m f g = (case m g of (Inl e, g') \<Rightarrow> (Inl e, g') | (Inr x, g') \<Rightarrow> f x g')"

text \<open>\<^verbatim>\<open>[str(np.random.randint(1, 1000)) for _ in range(n)]\<close>\<close>

fun draws :: "'g np_random \<Rightarrow> nat \<Rightarrow> 'g \<Rightarrow> pyval list \<times> 'g" where
  "draws R 0 g = ([], g)"
| "draws R (Suc n) g =
     (let (x, g1) = randint R 1 1000 g;
          (xs, g2) = draws R n g1
      in (PyStr (str_int x) # xs, g2))"

text \<open>\<^verbatim>\<open>[[... for _ in range(n)] for _ in range(m)]\<close>\<close>

fun draw_rows :: "'g np_random \<Rightarrow> nat \<Rightarrow> nat \<Rightarrow> 'g \<Rightarrow> pyval list \<times> 'g" where
  "draw_rows R 0 n g = ([], g)"
| "draw_rows R (Suc m) n g =
     (let (row, g1) = draws R n g;
          (rows, g2) = draw_rows R m n g1
      in (PyList row # rows, g2))"

definition generate_proof_point :: "'g np_random \<Rightarrow> string \<Rightarrow> string \<Rightarrow> (pyval, 'g) rand" where
  "generate_proof_point R commitment suffix =
     bind_rand (lift (int_base16 (take 8 commitment))) (\<lambda>seed.
     bind_rand (random_seed R seed) (\<lambda>_ g.
       let (xs, g') = draws R 3 g in (Inr (PyList xs), g')))"

definition generate_proof_matrix :: "'g np_random \<Rightarrow> string \<Rightarrow> string \<Rightarrow> (pyval, 'g) rand" where
  "generate_proof_matrix R commitment suffix =
     bind_rand (lift (int_base16 (take 8 commitment))) (\<lambda>n.
     bind_rand (random_seed R (n + int (length suffix))) (\<lambda>_ g.
       let (rows, g') = draw_rows R 3 2 g in (Inr (PyList rows), g')))"

section \<open>The summarizer\<close>

text \<open>
  Of the fields of a \<^verbatim>\<open>ZKMLSummarizer\<close> the proof code reads \<^verbatim>\<open>model_hash\<close>
  only; the tokenizer and the model are used by the inference alone.
\<close>

record summarizer =
  model_path :: string
  model_hash :: string

definition generate_verification_key ::
  "(string \<Rightarrow> string) \<Rightarrow> summarizer \<Rightarrow> string \<Rightarrow> string \<Rightarrow> string" where
  "generate_verification_key H self text summary = H (take 100 text @ summary @ model_hash self)"

text \<open>
  The metadata dictionary that \<^verbatim>\<open>run_inference\<close> returns with the summary
  \<open>summary\<close> that the model produced for \<open>text\<close>; \<open>timestamp\<close> is the clock reading.
\<close>

definition run_inference_metadata ::
  "(string \<Rightarrow> string) \<Rightarrow> summarizer \<Rightarrow> string \<Rightarrow> string \<Rightarrow> int \<Rightarrow> int \<Rightarrow> int \<Rightarrow> pydict" where
  "run_inference_metadata H self text summary max_length min_length timestamp =
     [(''input_hash'', PyStr (H text)),
      (''output_hash'', PyStr (H summary)),
      (''model_hash'', PyStr (model_hash self)),
      (''input_length'', PyInt (int (length text))),
      (''output_length'', PyInt (int (length summary))),
      (''max_length'', PyInt max_length),
      (''min_length'', PyInt min_length),
      (''timestamp'', PyInt timestamp),
      (''model_name'', PyStr ''bart-large-cnn''),
      (''verification_key'', PyStr (generate_verification_key H self text summary))]"

subsection \<open>\<^verbatim>\<open>generate_zk_proof\<close>\<close>

definition circuit_inputs_of :: "pydict \<Rightarrow> exn + pydict" where
  "circuit_inputs_of metadata =
     bind (getitem metadata ''input_hash'') (\<lambda>ih.
     bind (getitem metadata ''output_hash'') (\<lambda>oh.
     bind (getitem metadata ''model_hash'') (\<lambda>mh.
     bind (getitem metadata ''input_length'') (\<lambda>il.
     bind (getitem metadata ''output_length'') (\<lambda>ol.
     bind (getitem metadata ''verification_key'') (\<lambda>vk.
       Inr [(''input_hash'', ih),
            (''output_hash'', oh),
            (''model_hash'', mh),
            (''input_length'', PyStr (py_str il)),
            (''output_length'', PyStr (py_str ol)),
            (''verification_key'', vk)]))))))"

definition public_signals_of :: "pydict \<Rightarrow> exn + pyval list" where
  "public_signals_of metadata =
     bind (bind (getitem metadata ''input_hash'') (slice_to 16)) (\<lambda>s0.
     bind (bind (getitem metadata ''output_hash'') (slice_to 16)) (\<lambda>s1.
     bind (bind (getitem metadata ''model_hash'') (slice_to 16)) (\<lambda>s2.
     bind (bind (getitem metadata ''verification_key'') (slice_to 16)) (\<lambda>s3.
       Inr [s0, s1, s2, s3]))))"

text \<open>The body of the \<^verbatim>\<open>try\<close> block, in the order Python evaluates it.\<close>

definition generate_zk_proof_body ::
  "(string \<Rightarrow> string) \<Rightarrow> 'g np_random \<Rightarrow> pydict \<Rightarrow> (pydict, 'g) rand" where
  "generate_zk_proof_body H R metadata =
     bind_rand (lift (circuit_inputs_of metadata)) (\<lambda>circuit_inputs.
     bind_rand (lift (generate_commitment H (PyDict circuit_inputs))) (\<lambda>commitment.
     bind_rand (generate_proof_point R commitment ''a'') (\<lambda>pi_a.
     bind_rand (generate_proof_matrix R commitment ''b'') (\<lambda>pi_b.
     bind_rand (generate_proof_point R commitment ''c'') (\<lambda>pi_c.
     bind_rand (lift (public_signals_of metadata)) (\<lambda>public_signals.
       lift (Inr [(''pi_a'', pi_a),
                  (''pi_b'', pi_b),
                  (''pi_c'', pi_c),
                  (''protocol'', PyStr ''groth16''),
                  (''curve'', PyStr ''bn128''),
                  (''public_signals'', PyList public_signals),
                  (''commitment'', PyStr commitment),
                  (''circuit_inputs'', PyDict circuit_inputs)])))))))"

text \<open>
  \<^verbatim>\<open>except Exception as e: raise RuntimeError(...)\<close>: every exception of the body
  leaves the function as a \<^verbatim>\<open>RuntimeError\<close>. The arguments \<open>text\<close> and
  \<open>summary\<close> are not read.
\<close>

definition generate_zk_proof ::
  "(string \<Rightarrow> string) \<Rightarrow> 'g np_random \<Rightarrow> summarizer \<Rightarrow> string \<Rightarrow> string \<Rightarrow> pydict \<Rightarrow> (pydict, 'g) rand" where
  "generate_zk_proof H R self text summary metadata g =
     (case generate_zk_proof_body H R metadata g of
        (Inl e, g') \<Rightarrow> (Inl (RuntimeError e), g')
      | (Inr proof, g') \<Rightarrow> (Inr proof, g'))"

subsection \<open>\<^verbatim>\<open>verify_inference\<close>\<close>

definition signal_matches :: "pydict \<Rightarrow> nat \<Rightarrow> string \<Rightarrow> exn + bool" where
  "signal_matches proof i expected =
     bind (getitem proof ''public_signals'') (\<lambda>ps.
     bind (index ps i) (\<lambda>x. Inr (eq_str x expected)))"

definition verify_inference_body ::
  "(string \<Rightarrow> string) \<Rightarrow> summarizer \<Rightarrow> string \<Rightarrow> string \<Rightarrow> pydict \<Rightarrow> exn + bool" where
  "verify_inference_body H self text summary proof =
     (let input_hash = H text;
          output_hash = H summary
      in bind (and_then (signal_matches proof 0 (take 16 input_hash))
              (and_then (signal_matches proof 1 (take 16 output_hash))
                        (signal_matches proof 2 (take 16 (model_hash self))))) (\<lambda>hash_matches.
         bind (getitem proof ''commitment'') (\<lambda>commitment.
         bind (getitem proof ''circuit_inputs'') (\<lambda>circuit_inputs.
         bind (verify_commitment H commitment circuit_inputs) (\<lambda>commitment_valid.
         bind (and_then (Inr (contains proof ''pi_a''))
              (and_then (Inr (contains proof ''pi_b''))
              (and_then (Inr (contains proof ''pi_c''))
                        (bind (getitem proof ''public_signals'') (\<lambda>ps.
                         bind (len ps) (\<lambda>n. Inr (n = 4))))))) (\<lambda>proof_structure_valid.
           Inr (hash_matches \<and> commitment_valid \<and> proof_structure_valid)))))))"

text \<open>\<^verbatim>\<open>except Exception: return False\<close>\<close>

definition verify_inference ::
  "(string \<Rightarrow> string) \<Rightarrow> summarizer \<Rightarrow> string \<Rightarrow> string \<Rightarrow> pydict \<Rightarrow> exn + bool" where
  "verify_inference H self text summary proof =
     (case verify_inference_body H self text summary proof of
        Inl e \<Rightarrow> Inr False
      | Inr is_valid \<Rightarrow> Inr is_valid)"

section \<open>Reading the result as the specification's record\<close>

text \<open>
  The specification's verifier returns a flag and the reason of a rejection.
  \<^verbatim>\<open>verify_inference\<close> returns a bare \<^verbatim>\<open>bool\<close>; read as such a record it
  has the flag and no reason.
\<close>

datatype reason = StructuralError | BindingMismatch | CommitmentMismatch | InternalError

record verification_result =
  valid :: bool
  reason :: "reason option"

definition as_result :: "bool \<Rightarrow> verification_result" where
  "as_result b = \<lparr>valid = b, reason = None\<rparr>"

text \<open>The artifacts that \<^verbatim>\<open>verify_inference\<close> accepts, in closed form.\<close>

definition accepted :: "(string \<Rightarrow> string) \<Rightarrow> summarizer \<Rightarrow> string \<Rightarrow> string \<Rightarrow> pydict \<Rightarrow> bool" where
  "accepted H self text summary proof =
     (\<exists>ps kvs.
        map_of proof ''public_signals'' = Some ps
      \<and> index ps 0 = Inr (PyStr (take 16 (H text)))
      \<and> index ps 1 = Inr (PyStr (take 16 (H summary)))
      \<and> index ps 2 = Inr (PyStr (take 16 (model_hash self)))
      \<and> len ps = Inr 4
      \<and> map_of proof ''commitment'' = Some (PyStr (H (canonical kvs)))
      \<and> map_of proof ''circuit_inputs'' = Some (PyDict kvs)
      \<and> contains proof ''pi_a'' \<and> contains proof ''pi_b'' \<and> contains proof ''pi_c'')"

section \<open>Small instances of the two libraries\<close>

text \<open>
  A checksum with the shape of a digest and a counter in place of the generator: an
  instance of the parameters \<open>H\<close> and \<open>R\<close> on which every function evaluates.
\<close>

fun hex_digits :: "nat \<Rightarrow> int \<Rightarrow> string" where
  "hex_digits 0 n = []"
| "hex_digits (Suc k) n = hex_digits k (n div 16) @ [digit_char (nat (n mod 16))]"

definition checksum :: "string \<Rightarrow> string" where
  "checksum s = hex_digits 8 (sum_list (map of_char s)) @ replicate 56 CHR ''0''"

definition counter_random :: "int np_random" where
  "counter_random = \<lparr>seeded = (\<lambda>n. int n), randint = (\<lambda>lo hi g. (lo + g mod (hi - lo), g + 1))\<rparr>"

definition demo :: summarizer where
  "demo = \<lparr>model_path = ''models/bart-large-cnn'', model_hash = ''unknown_model_hash''\<rparr>"

text \<open>The fields of the metadata that \<^verbatim>\<open>generate_zk_proof\<close> reads.\<close>

definition required_fields :: "string list" where
  "required_fields =
     [''input_hash'', ''output_hash'', ''model_hash'', ''input_length'', ''output_length'',
      ''verification_key'']"

section \<open>Properties\<close>

subsection \<open>Sequencing\<close>

lemma bind_Inl [simp]: "bind (Inl e) f = Inl e"
  and bind_Inr [simp]: "bind (Inr x) f = f x"
  by (simp_all add: bind_def)

lemma and_then_simps [simp]:
  "and_then (Inl e) b = Inl e"
  "and_then (Inr True) b = b"
  "and_then (Inr False) b = Inr False"
  by (simp_all add: and_then_def)

lemma bind_rand_lift [simp]:
  "bind_rand (lift (Inl e)) f g = (Inl e, g)"
  "bind_rand (lift (Inr x)) f g = f x g"
  by (simp_all add: bind_rand_def lift_def)

lemma filter_key_distinct:
  "distinct (map fst xs) \<Longrightarrow> kv \<in> set xs \<Longrightarrow> filter (\<lambda>x. fst kv = fst x) xs = [kv]"
proof (induction xs)
  case Nil
  then show ?case by simp
next
  case (Cons a xs)
  show ?case
  proof (cases "kv = a")
    case True
    with Cons.prems have "fst kv \<notin> fst ` set xs" by simp
    then have "\<forall>x\<in>set xs. fst kv \<noteq> fst x" by blast
    then have "filter (\<lambda>x. fst kv = fst x) xs = []" by (simp add: filter_empty_conv)
    with True show ?thesis by simp
  next
    case False
    with Cons.prems have in_xs: "kv \<in> set xs" by simp
    with Cons.prems have "fst kv \<noteq> fst a" by (auto simp: image_iff)
    with Cons in_xs show ?thesis by simp
  qed
qed

lemma sort_key_fst_unique:
  fixes c1 c2 :: "('k::linorder \<times> 'v) list"
  assumes d1: "distinct (map fst c1)" and d2: "distinct (map fst c2)" and eq: "set c1 = set c2"
  shows "sort_key fst c1 = sort_key fst c2"
proof (rule properties_for_sort_key)
  from d1 d2 have "distinct c1" "distinct c2" by (simp_all add: distinct_map)
  with eq have "mset c1 = mset c2" by (simp add: set_eq_iff_mset_eq_distinct)
  then show "mset (sort_key fst c2) = mset c1" by simp
next
  fix k assume "k \<in> set (sort_key fst c2)"
  then have k2: "k \<in> set c2" by simp
  with eq have k1: "k \<in> set c1" by simp
  have "filter (\<lambda>x. fst k = fst x) (sort_key fst c2) = sort_key fst (filter (\<lambda>x. fst k = fst x) c2)"
    by (simp add: filter_sort)
  also have "\<dots> = [k]" using filter_key_distinct [OF d2 k2] by simp
  also have "\<dots> = filter (\<lambda>x. fst k = fst x) c1" using filter_key_distinct [OF d1 k1] by simp
  finally show "filter (\<lambda>x. fst k = fst x) (sort_key fst c2) = filter (\<lambda>x. fst k = fst x) c1" .
next
  show "sorted (map fst (sort_key fst c2))" by simp
qed

text \<open>
  C3. Two dictionaries with the same keys and the same values, whatever the order their
  entries were inserted in, have the same commitment.
\<close>

theorem commitment_order_independent:
  assumes "distinct (map fst c1)" and "distinct (map fst c2)" and "set c1 = set c2"
  shows "generate_commitment H (PyDict c1) = generate_commitment H (PyDict c2)"
  using sort_key_fst_unique [OF assms]
  by (simp add: generate_commitment_def items_def canonical_def)

theorem commitment_order_independent_witness:
  "distinct (map fst [(''b'', PyStr ''2''), (''a'', PyInt 1)])
   \<and> distinct (map fst [(''a'', PyInt 1), (''b'', PyStr ''2'')])
   \<and> set [(''b'', PyStr ''2''), (''a'', PyInt 1)] = set [(''a'', PyInt 1), (''b'', PyStr ''2'')]
   \<and> generate_commitment (\<lambda>s. s) (PyDict [(''b'', PyStr ''2''), (''a'', PyInt 1)]) = Inr ''a:1b:2''
   \<and> generate_commitment (\<lambda>s. s) (PyDict [(''a'', PyInt 1), (''b'', PyStr ''2'')]) = Inr ''a:1b:2''"
proof -
  have d1: "distinct (map fst [(''b'', PyStr ''2''), (''a'', PyInt 1)])" by simp
  have d2: "distinct (map fst [(''a'', PyInt 1), (''b'', PyStr ''2'')])" by simp
  have s: "set [(''b'', PyStr ''2''), (''a'', PyInt 1)] = set [(''a'', PyInt 1), (''b'', PyStr ''2'')]"
    by auto
  have v: "generate_commitment (\<lambda>s. s) (PyDict [(''a'', PyInt 1), (''b'', PyStr ''2'')]) = Inr ''a:1b:2''"
    by (simp add: generate_commitment_def items_def canonical_def py_str_def str_int_def
        dec_nat.simps digit_char_def)
  from commitment_order_independent [OF d1 d2 s, of "\<lambda>s. s"] v d1 d2 s show ?thesis by simp
qed

subsection \<open>Hexadecimal prefixes\<close>

lemma hex_val_lower:
  assumes "c \<in> set ''0123456789abcdef''"
  shows "\<exists>d. hex_val c = Some d \<and> d \<le> 15 \<and> (d = 15 \<longleftrightarrow> c = CHR ''f'')"
  using assms by (auto simp: hex_val_def)

lemma parse_hex_lower:
  assumes "set s \<subseteq> set ''0123456789abcdef''" and "0 \<le> acc"
  shows "\<exists>n. parse_hex acc s = Inr n \<and> acc * 16 ^ length s \<le> n
           \<and> n \<le> acc * 16 ^ length s + (16 ^ length s - 1)
           \<and> (n = acc * 16 ^ length s + (16 ^ length s - 1) \<longleftrightarrow> s = replicate (length s) CHR ''f'')"
  using assms
proof (induction s arbitrary: acc)
  case Nil
  then show ?case by simp
next
  case (Cons c cs)
  from Cons.prems obtain d where d: "hex_val c = Some d" "d \<le> 15" "d = 15 \<longleftrightarrow> c = CHR ''f''"
    using hex_val_lower [of c] by auto
  define p :: int where "p = 16 ^ length cs"
  have p: "0 < p" by (simp add: p_def)
  from Cons.prems have "set cs \<subseteq> set ''0123456789abcdef''" "0 \<le> 16 * acc + int d" by auto
  from Cons.IH [OF this] obtain n where n:
    "parse_hex (16 * acc + int d) cs = Inr n"
    "(16 * acc + int d) * p \<le> n"
    "n \<le> (16 * acc + int d) * p + (p - 1)"
    "n = (16 * acc + int d) * p + (p - 1) \<longleftrightarrow> cs = replicate (length cs) CHR ''f''"
    unfolding p_def by blast
  have pow: "(16::int) ^ length (c # cs) = 16 * p" by (simp add: p_def)
  have dp: "int d * p \<le> 15 * p" using d(2) p by simp
  have dp0: "0 \<le> int d * p" using p by simp
  have lo: "acc * (16 * p) \<le> n" using n(2) dp0 by (simp add: algebra_simps)
  have hi: "n \<le> acc * (16 * p) + (16 * p - 1)" using n(3) dp by (simp add: algebra_simps)
  have iff: "n = acc * (16 * p) + (16 * p - 1) \<longleftrightarrow> c # cs = replicate (length (c # cs)) CHR ''f''"
  proof (cases "d = 15")
    case True
    then have "n = acc * (16 * p) + (16 * p - 1) \<longleftrightarrow> n = (16 * acc + int d) * p + (p - 1)"
      by (simp add: algebra_simps)
    with n(4) d(3) True show ?thesis by simp
  next
    case False
    with d(2) have "int d + 1 \<le> 15" by simp
    then have "(int d + 1) * p \<le> 15 * p" using p by (simp only: mult_le_cancel_right) simp
    then have q: "int d * p + p \<le> 15 * p" by (simp only: distrib_right mult_1)
    have "n \<le> 16 * (acc * p) + int d * p + (p - 1)" using n(3) by (simp only: distrib_right mult.assoc)
    with q p have "n < 16 * (acc * p) + (16 * p - 1)" by linarith
    then have "n < acc * (16 * p) + (16 * p - 1)" by (simp only: mult.left_commute [of acc 16 p])
    moreover from False d(3) have "c \<noteq> CHR ''f''" by simp
    ultimately show ?thesis by simp
  qed
  from d(1) n(1) have "parse_hex acc (c # cs) = Inr n" by simp
  with lo hi iff show ?case unfolding pow by blast
qed

lemma hexdigest_seed:
  assumes "hexdigest H"
  shows "\<exists>n. int_base16 (take 8 (H s)) = Inr n \<and> 0 \<le> n \<and> n \<le> 2 ^ 32 - 1
           \<and> (n = 2 ^ 32 - 1 \<longleftrightarrow> take 8 (H s) = ''ffffffff'')"
proof -
  from assms have len: "length (take 8 (H s)) = 8" by (simp add: hexdigest_def)
  from assms have "set (H s) \<subseteq> set ''0123456789abcdef''" unfolding hexdigest_def by blast
  then have sub: "set (take 8 (H s)) \<subseteq> set ''0123456789abcdef''"
    using set_take_subset [of 8 "H s"] by blast
  from parse_hex_lower [OF sub, of 0] obtain n where n:
    "parse_hex 0 (take 8 (H s)) = Inr n" "0 \<le> n" "n \<le> 16 ^ 8 - 1"
    "n = 16 ^ 8 - 1 \<longleftrightarrow> take 8 (H s) = replicate 8 CHR ''f''"
    unfolding len by auto
  from len have ne: "take 8 (H s) \<noteq> []" by auto
  have r: "replicate 8 CHR ''f'' = ''ffffffff''" by (simp add: numeral_eq_Suc)
  from n ne r show ?thesis by (simp add: int_base16_def)
qed


subsection \<open>The generator\<close>

lemma generate_proof_point_seeded:
  assumes "int_base16 (take 8 c) = Inr n" and "0 \<le> n" and "n \<le> 2 ^ 32 - 1"
  shows "generate_proof_point R c sfx g =
           (Inr (PyList (fst (draws R 3 (seeded R (nat n))))), snd (draws R 3 (seeded R (nat n))))"
  using assms
  by (simp add: generate_proof_point_def bind_rand_def lift_def random_seed_def split: prod.splits)

lemma generate_proof_matrix_seeded:
  assumes "int_base16 (take 8 c) = Inr n" and "0 \<le> n" and "n + int (length sfx) \<le> 2 ^ 32 - 1"
  shows "generate_proof_matrix R c sfx g =
           (Inr (PyList (fst (draw_rows R 3 2 (seeded R (nat (n + int (length sfx))))))),
            snd (draw_rows R 3 2 (seeded R (nat (n + int (length sfx))))))"
  using assms
  by (simp add: generate_proof_matrix_def bind_rand_def lift_def random_seed_def split: prod.splits)

lemma generate_proof_matrix_overflow:
  assumes "int_base16 (take 8 c) = Inr n" and "2 ^ 32 - 1 < n + int (length sfx)"
  shows "generate_proof_matrix R c sfx g = (Inl ValueError, g)"
  using assms
  by (simp add: generate_proof_matrix_def bind_rand_def lift_def random_seed_def)

lemma generate_proof_point_fst:
  "fst (generate_proof_point R c sfx g) = fst (generate_proof_point R c sfx g')"
  by (simp add: generate_proof_point_def bind_rand_def lift_def random_seed_def
      split: prod.splits sum.splits)

lemma generate_proof_matrix_fst:
  "fst (generate_proof_matrix R c sfx g) = fst (generate_proof_matrix R c sfx g')"
  by (simp add: generate_proof_matrix_def bind_rand_def lift_def random_seed_def
      split: prod.splits sum.splits)

lemma lift_fst: "fst (lift m g) = fst (lift m g')"
  by (simp add: lift_def)

lemma bind_rand_fst:
  assumes "fst (m g) = fst (m g')" and "\<And>x h h'. fst (f x h) = fst (f x h')"
  shows "fst (bind_rand m f g) = fst (bind_rand m f g')"
proof (cases "m g")
  case (Pair r h)
  obtain r' h' where m': "m g' = (r', h')" by (cases "m g'")
  with Pair assms(1) have "r' = r" by simp
  with Pair m' assms(2) show ?thesis by (cases r) (simp_all add: bind_rand_def)
qed

lemma generate_zk_proof_body_fst:
  "fst (generate_zk_proof_body H R metadata g) = fst (generate_zk_proof_body H R metadata g')"
  unfolding generate_zk_proof_body_def
  by (intro bind_rand_fst lift_fst generate_proof_point_fst generate_proof_matrix_fst)

lemma generate_zk_proof_fst:
  "fst (generate_zk_proof H R self text summary metadata g)
     = (case fst (generate_zk_proof_body H R metadata g) of
          Inl e \<Rightarrow> Inl (RuntimeError e) | Inr proof \<Rightarrow> Inr proof)"
  by (simp add: generate_zk_proof_def split: prod.splits sum.splits)

text \<open>
  C4. Synthesis is deterministic: whatever state the global generator is in when
  \<^verbatim>\<open>generate_zk_proof\<close> is called, the same metadata gives the same outcome, hence
  the same artifact (points, tags, public signals, commitment and circuit inputs) in a
  second call as in the first.
\<close>

theorem generate_zk_proof_deterministic:
  "fst (generate_zk_proof H R self text summary metadata g)
     = fst (generate_zk_proof H R self text summary metadata g')"
  using generate_zk_proof_body_fst [of H R metadata g g']
  by (simp add: generate_zk_proof_fst)


subsection \<open>Synthesis and verification, step by step\<close>

lemma generate_zk_proof_body_success:
  assumes ci: "circuit_inputs_of metadata = Inr ci"
    and n: "int_base16 (take 8 (H (canonical ci))) = Inr n" "0 \<le> n" "n + 1 \<le> 2 ^ 32 - 1"
    and ps: "public_signals_of metadata = Inr ps"
  shows "generate_zk_proof_body H R metadata g =
           (Inr [(''pi_a'', PyList (fst (draws R 3 (seeded R (nat n))))),
                 (''pi_b'', PyList (fst (draw_rows R 3 2 (seeded R (nat (n + 1)))))),
                 (''pi_c'', PyList (fst (draws R 3 (seeded R (nat n))))),
                 (''protocol'', PyStr ''groth16''),
                 (''curve'', PyStr ''bn128''),
                 (''public_signals'', PyList ps),
                 (''commitment'', PyStr (H (canonical ci))),
                 (''circuit_inputs'', PyDict ci)],
            snd (draws R 3 (seeded R (nat n))))"
proof -
  from n have le: "n \<le> 2 ^ 32 - 1" by simp
  from n have le': "n + int (length ''b'') \<le> 2 ^ 32 - 1" by simp
  have a: "\<And>sfx h. generate_proof_point R (H (canonical ci)) sfx h =
      (Inr (PyList (fst (draws R 3 (seeded R (nat n))))), snd (draws R 3 (seeded R (nat n))))"
    by (rule generate_proof_point_seeded [OF n(1) n(2) le])
  have b: "\<And>h. generate_proof_matrix R (H (canonical ci)) ''b'' h =
      (Inr (PyList (fst (draw_rows R 3 2 (seeded R (nat (n + 1)))))),
       snd (draw_rows R 3 2 (seeded R (nat (n + 1)))))"
    using generate_proof_matrix_seeded [OF n(1) n(2) le'] by simp
  show ?thesis
    unfolding generate_zk_proof_body_def
    by (simp add: ci ps generate_commitment_def items_def)
       (simp add: bind_rand_def a b lift_def)
qed

lemma generate_zk_proof_body_overflow:
  assumes ci: "circuit_inputs_of metadata = Inr ci"
    and n: "int_base16 (take 8 (H (canonical ci))) = Inr n" "n = 2 ^ 32 - 1"
  shows "generate_zk_proof_body H R metadata g = (Inl ValueError, snd (draws R 3 (seeded R (nat n))))"
proof -
  from n have a: "\<And>sfx h. generate_proof_point R (H (canonical ci)) sfx h =
      (Inr (PyList (fst (draws R 3 (seeded R (nat n))))), snd (draws R 3 (seeded R (nat n))))"
    by (intro generate_proof_point_seeded) simp_all
  from n have b: "\<And>h. generate_proof_matrix R (H (canonical ci)) ''b'' h = (Inl ValueError, h)"
    by (intro generate_proof_matrix_overflow [where n = n]) simp_all
  show ?thesis
    unfolding generate_zk_proof_body_def
    by (simp add: ci generate_commitment_def items_def)
       (simp add: bind_rand_def a b)
qed

lemma verify_inference_accepts:
  assumes "map_of proof ''public_signals'' =
             Some (PyList [PyStr (take 16 (H text)), PyStr (take 16 (H summary)),
                           PyStr (take 16 (model_hash self)), s3])"
    and "map_of proof ''commitment'' = Some (PyStr (H (canonical ci)))"
    and "map_of proof ''circuit_inputs'' = Some (PyDict ci)"
    and "map_of proof ''pi_a'' = Some a" and "map_of proof ''pi_b'' = Some b"
    and "map_of proof ''pi_c'' = Some c"
  shows "verify_inference H self text summary proof = Inr True"
  using assms
  by (simp add: verify_inference_def verify_inference_body_def signal_matches_def getitem_def
      index_def eq_str_def verify_commitment_def generate_commitment_def items_def contains_def
      len_def)

lemma metadata_circuit_inputs:
  "circuit_inputs_of (run_inference_metadata H self text summary mx mn ts) =
     Inr [(''input_hash'', PyStr (H text)),
          (''output_hash'', PyStr (H summary)),
          (''model_hash'', PyStr (model_hash self)),
          (''input_length'', PyStr (str_int (int (length text)))),
          (''output_length'', PyStr (str_int (int (length summary)))),
          (''verification_key'', PyStr (generate_verification_key H self text summary))]"
  by (simp add: circuit_inputs_of_def run_inference_metadata_def getitem_def py_str_def)

lemma metadata_public_signals:
  "public_signals_of (run_inference_metadata H self text summary mx mn ts) =
     Inr [PyStr (take 16 (H text)), PyStr (take 16 (H summary)),
          PyStr (take 16 (model_hash self)),
          PyStr (take 16 (generate_verification_key H self text summary))]"
  by (simp add: public_signals_of_def run_inference_metadata_def getitem_def slice_to_def)

subsection \<open>The small instances\<close>

lemma length_hex_digits: "length (hex_digits k n) = k"
  by (induction k arbitrary: n) simp_all

lemma digit_char_hex: "d < 16 \<Longrightarrow> digit_char d \<in> set ''0123456789abcdef''"
  unfolding digit_char_def by (rule nth_mem) simp

lemma set_hex_digits: "set (hex_digits k n) \<subseteq> set ''0123456789abcdef''"
proof (induction k arbitrary: n)
  case 0
  then show ?case by simp
next
  case (Suc k)
  have "digit_char (nat (n mod 16)) \<in> set ''0123456789abcdef''" by (rule digit_char_hex) simp
  with Suc [of "n div 16"] show ?case by simp
qed

lemma hexdigest_checksum: "hexdigest checksum"
  unfolding hexdigest_def checksum_def
  using set_hex_digits [of 8] by (auto simp: length_hex_digits)

lemma hexdigest_all_f: "hexdigest (\<lambda>s. replicate 64 CHR ''f'')"
  by (simp add: hexdigest_def)

lemma demo_commitment:
  "bind (circuit_inputs_of (run_inference_metadata checksum demo ''Hello world.'' ''Hello.'' 150 30 0))
     (\<lambda>ci. generate_commitment checksum (PyDict ci))
   = Inr ''00004c6d00000000000000000000000000000000000000000000000000000000''"
  by code_simp

lemma all_f_commitment:
  "bind (circuit_inputs_of (run_inference_metadata (\<lambda>s. replicate 64 CHR ''f'') demo ''Hello world.'' ''Hello.'' 150 30 0))
     (\<lambda>ci. generate_commitment (\<lambda>s. replicate 64 CHR ''f'') (PyDict ci))
   = Inr ''ffffffffffffffffffffffffffffffffffffffffffffffffffffffffffffffff''"
  by code_simp

subsection \<open>What verification accepts\<close>

lemma signal_matches_cases:
  "signal_matches proof i expected = Inr True \<longleftrightarrow>
     (\<exists>ps. map_of proof ''public_signals'' = Some ps \<and> index ps i = Inr (PyStr expected))"
  by (auto simp: signal_matches_def getitem_def eq_str_def bind_def
      split: option.splits sum.splits)

lemma and_then_True:
  "and_then a b = Inr True \<longleftrightarrow> a = Inr True \<and> b = Inr True"
  by (auto simp: and_then_def bind_def split: sum.splits)

lemma bind_Inr_iff: "bind m f = Inr y \<longleftrightarrow> (\<exists>x. m = Inr x \<and> f x = Inr y)"
  by (cases m) (simp_all add: bind_def)

lemma verify_commitment_True:
  "verify_commitment H c inputs = Inr b \<longleftrightarrow>
     (\<exists>kvs. inputs = PyDict kvs \<and> b = (c = PyStr (H (canonical kvs))))"
  by (auto simp: verify_commitment_def generate_commitment_def items_def eq_str_def bind_def
      split: pyval.splits)

lemma getitem_Inr: "getitem d k = Inr v \<longleftrightarrow> map_of d k = Some v"
  by (simp add: getitem_def split: option.splits)

lemma verify_inference_body_True:
  "verify_inference_body H self text summary art = Inr True \<longleftrightarrow> accepted H self text summary art"
proof
  assume "verify_inference_body H self text summary art = Inr True"
  then show "accepted H self text summary art"
    unfolding verify_inference_body_def accepted_def Let_def
    by (auto simp: bind_Inr_iff and_then_True signal_matches_cases verify_commitment_True getitem_Inr)
next
  assume "accepted H self text summary art"
  then obtain ps kvs where a:
    "map_of art ''public_signals'' = Some ps"
    "index ps 0 = Inr (PyStr (take 16 (H text)))"
    "index ps 1 = Inr (PyStr (take 16 (H summary)))"
    "index ps 2 = Inr (PyStr (take 16 (model_hash self)))"
    "len ps = Inr 4"
    "map_of art ''commitment'' = Some (PyStr (H (canonical kvs)))"
    "map_of art ''circuit_inputs'' = Some (PyDict kvs)"
    "contains art ''pi_a''" "contains art ''pi_b''" "contains art ''pi_c''"
    unfolding accepted_def by blast
  from a(1-4) have s: "signal_matches art 0 (take 16 (H text)) = Inr True"
    "signal_matches art 1 (take 16 (H summary)) = Inr True"
    "signal_matches art 2 (take 16 (model_hash self)) = Inr True"
    by (simp_all add: signal_matches_cases)
  from a(6,7) have c: "verify_commitment H (PyStr (H (canonical kvs))) (PyDict kvs) = Inr True"
    by (simp add: verify_commitment_True)
  show "verify_inference_body H self text summary art = Inr True"
    unfolding verify_inference_body_def Let_def
    using s c a by (simp add: getitem_def)
qed

lemma verify_inference_total:
  "verify_inference H self text summary art = Inr (accepted H self text summary art)"
proof (cases "verify_inference_body H self text summary art")
  case (Inl e)
  then show ?thesis
    using verify_inference_body_True [of H self "text" summary art]
    by (simp add: verify_inference_def)
next
  case (Inr b)
  then show ?thesis
    using verify_inference_body_True [of H self "text" summary art]
    by (cases b) (simp_all add: verify_inference_def)
qed

subsection \<open>What synthesis returns\<close>

lemma hex_val_le: "hex_val c = Some d \<Longrightarrow> d \<le> 15"
  by (auto simp: hex_val_def Let_def split: if_splits)

lemma parse_hex_bounds:
  assumes "parse_hex acc s = Inr n" and "0 \<le> acc"
  shows "acc * 16 ^ length s \<le> n \<and> n < (acc + 1) * 16 ^ length s"
  using assms
proof (induction s arbitrary: acc)
  case Nil
  then show ?case by simp
next
  case (Cons c cs)
  from Cons.prems(1) obtain d where d: "hex_val c = Some d"
    by (cases "hex_val c") simp_all
  with Cons.prems(1) have rec: "parse_hex (16 * acc + int d) cs = Inr n" by simp
  define p :: int where "p = 16 ^ length cs"
  have p: "0 < p" by (simp add: p_def)
  from Cons.prems(2) have "0 \<le> 16 * acc + int d" by simp
  from Cons.IH [OF rec this]
  have ih: "(16 * acc + int d) * p \<le> n" "n < (16 * acc + int d + 1) * p"
    unfolding p_def by simp_all
  from hex_val_le [OF d] have "int d + 1 \<le> 16" by simp
  then have "(int d + 1) * p \<le> 16 * p" using p by (simp only: mult_le_cancel_right) simp
  then have q: "int d * p + p \<le> 16 * p" by (simp only: distrib_right mult_1)
  have dp0: "0 \<le> int d * p" using p by simp
  from ih have ih': "16 * (acc * p) + int d * p \<le> n" "n < 16 * (acc * p) + int d * p + p"
    by (simp_all only: distrib_right mult.assoc mult_1)
  from ih' q dp0 have "16 * (acc * p) \<le> n" "n < 16 * (acc * p) + 16 * p" by linarith+
  then have "acc * (16 * p) \<le> n" "n < (acc + 1) * (16 * p)"
    by (simp_all add: algebra_simps)
  then show ?case by (simp add: p_def)
qed

lemma int_base16_prefix_bounds:
  assumes "int_base16 (take 8 c) = Inr n"
  shows "0 \<le> n" and "n \<le> 2 ^ 32 - 1"
proof -
  from assms have ph: "parse_hex 0 (take 8 c) = Inr n"
    by (simp add: int_base16_def split: if_splits)
  from parse_hex_bounds [OF ph] have b: "0 \<le> n" "n < 16 ^ length (take 8 c)" by simp_all
  have "(16::int) ^ length (take 8 c) \<le> 16 ^ 8" by (rule power_increasing) simp_all
  with b show "0 \<le> n" and "n \<le> 2 ^ 32 - 1" by simp_all
qed

lemma generate_zk_proof_Inr:
  assumes "fst (generate_zk_proof H R self text summary metadata g) = Inr art"
  shows "\<exists>ci ps n.
           circuit_inputs_of metadata = Inr ci \<and> public_signals_of metadata = Inr ps
         \<and> int_base16 (take 8 (H (canonical ci))) = Inr n \<and> n + 1 \<le> 2 ^ 32 - 1
         \<and> art = [(''pi_a'', PyList (fst (draws R 3 (seeded R (nat n))))),
                  (''pi_b'', PyList (fst (draw_rows R 3 2 (seeded R (nat (n + 1)))))),
                  (''pi_c'', PyList (fst (draws R 3 (seeded R (nat n))))),
                  (''protocol'', PyStr ''groth16''),
                  (''curve'', PyStr ''bn128''),
                  (''public_signals'', PyList ps),
                  (''commitment'', PyStr (H (canonical ci))),
                  (''circuit_inputs'', PyDict ci)]"
proof -
  from assms have body: "fst (generate_zk_proof_body H R metadata g) = Inr art"
    by (simp add: generate_zk_proof_fst split: sum.splits)
  obtain ci where ci: "circuit_inputs_of metadata = Inr ci"
    using body by (cases "circuit_inputs_of metadata") (simp_all add: generate_zk_proof_body_def)
  obtain n where n: "int_base16 (take 8 (H (canonical ci))) = Inr n"
    using body ci
    by (cases "int_base16 (take 8 (H (canonical ci)))")
       (simp_all add: generate_zk_proof_body_def generate_commitment_def items_def
          generate_proof_point_def bind_rand_def lift_def)
  note nb = int_base16_prefix_bounds [OF n]
  have le: "n + 1 \<le> 2 ^ 32 - 1"
  proof (rule ccontr)
    assume "\<not> n + 1 \<le> 2 ^ 32 - 1"
    with nb have "n = 2 ^ 32 - 1" by simp
    from generate_zk_proof_body_overflow [where H = H and R = R and g = g, OF ci n this] body
    show False by simp
  qed
  obtain ps where ps: "public_signals_of metadata = Inr ps"
  proof (cases "public_signals_of metadata")
    case (Inl e)
    have a: "\<And>sfx h. generate_proof_point R (H (canonical ci)) sfx h =
      (Inr (PyList (fst (draws R 3 (seeded R (nat n))))), snd (draws R 3 (seeded R (nat n))))"
      by (rule generate_proof_point_seeded [OF n nb])
    have b: "\<And>h. generate_proof_matrix R (H (canonical ci)) ''b'' h =
      (Inr (PyList (fst (draw_rows R 3 2 (seeded R (nat (n + 1)))))),
       snd (draw_rows R 3 2 (seeded R (nat (n + 1)))))"
      using generate_proof_matrix_seeded [OF n nb(1), of "''b''"] le by simp
    have "fst (generate_zk_proof_body H R metadata g) = Inl e"
      unfolding generate_zk_proof_body_def
      by (simp add: ci Inl generate_commitment_def items_def) (simp add: bind_rand_def a b lift_def)
    with body show ?thesis by simp
  next
    case (Inr ps)
    then show ?thesis by (rule that)
  qed
  from generate_zk_proof_body_success [where H = H and R = R and g = g, OF ci n nb(1) le ps] body
  have "art = [(''pi_a'', PyList (fst (draws R 3 (seeded R (nat n))))),
                  (''pi_b'', PyList (fst (draw_rows R 3 2 (seeded R (nat (n + 1)))))),
                  (''pi_c'', PyList (fst (draws R 3 (seeded R (nat n))))),
                  (''protocol'', PyStr ''groth16''),
                  (''curve'', PyStr ''bn128''),
                  (''public_signals'', PyList ps),
                  (''commitment'', PyStr (H (canonical ci))),
                  (''circuit_inputs'', PyDict ci)]"
    by simp
  with ci ps n le show ?thesis by blast
qed

subsection \<open>The round trip\<close>

text \<open>
  C1. The artifact synthesized from the metadata of an inference verifies against the
  same text, summary and model hash, unless the commitment begins with \<open>ffffffff\<close>:
  then the seed of \<^verbatim>\<open>pi_b\<close> is \<open>2\<^sup>3\<^sup>2\<close>, \<^verbatim>\<open>np.random.seed\<close> raises
  and no artifact is synthesized.
\<close>

theorem roundtrip_unless_seed_overflow:
  assumes H: "hexdigest H"
    and m: "metadata = run_inference_metadata H self text summary max_length min_length timestamp"
    and c: "bind (circuit_inputs_of metadata) (\<lambda>ci. generate_commitment H (PyDict ci)) = Inr c"
  shows "(take 8 c \<noteq> ''ffffffff'' \<longrightarrow>
           (\<exists>proof g'. generate_zk_proof H R self text summary metadata g = (Inr proof, g')
              \<and> verify_inference H self text summary proof = Inr True))
       \<and> (take 8 c = ''ffffffff'' \<longrightarrow>
           (\<exists>g'. generate_zk_proof H R self text summary metadata g = (Inl (RuntimeError ValueError), g')))"
proof -
  obtain ci where ci: "circuit_inputs_of metadata = Inr ci"
    unfolding m metadata_circuit_inputs by blast
  with c have c_eq: "c = H (canonical ci)" by (simp add: generate_commitment_def items_def)
  from hexdigest_seed [OF H, of "canonical ci"] obtain n where n:
    "int_base16 (take 8 c) = Inr n" "0 \<le> n" "n \<le> 2 ^ 32 - 1"
    "n = 2 ^ 32 - 1 \<longleftrightarrow> take 8 c = ''ffffffff''"
    unfolding c_eq by blast
  have ps: "public_signals_of metadata =
      Inr [PyStr (take 16 (H text)), PyStr (take 16 (H summary)), PyStr (take 16 (model_hash self)),
           PyStr (take 16 (generate_verification_key H self text summary))]"
    unfolding m by (rule metadata_public_signals)
  show ?thesis
  proof (intro conjI impI)
    assume "take 8 c \<noteq> ''ffffffff''"
    with n have "n + 1 \<le> 2 ^ 32 - 1" by simp
    note body = generate_zk_proof_body_success
      [where H = H and R = R and g = g, OF ci n(1) [unfolded c_eq] n(2) this ps]
    show "\<exists>proof g'. generate_zk_proof H R self text summary metadata g = (Inr proof, g')
              \<and> verify_inference H self text summary proof = Inr True"
      unfolding generate_zk_proof_def body
      by (simp add: verify_inference_accepts [where ci = ci])
  next
    assume "take 8 c = ''ffffffff''"
    with n have "n = 2 ^ 32 - 1" by simp
    note body = generate_zk_proof_body_overflow
      [where H = H and R = R and g = g, OF ci n(1) [unfolded c_eq] this]
    show "\<exists>g'. generate_zk_proof H R self text summary metadata g = (Inl (RuntimeError ValueError), g')"
      unfolding generate_zk_proof_def body by simp
  qed
qed

theorem roundtrip_unless_seed_overflow_witness:
  "hexdigest checksum
   \<and> (\<exists>proof g'. generate_zk_proof checksum counter_random demo ''Hello world.'' ''Hello.''
          (run_inference_metadata checksum demo ''Hello world.'' ''Hello.'' 150 30 0) 7 = (Inr proof, g')
        \<and> verify_inference checksum demo ''Hello world.'' ''Hello.'' proof = Inr True)
   \<and> hexdigest (\<lambda>s. replicate 64 CHR ''f'')
   \<and> (\<exists>g'. generate_zk_proof (\<lambda>s. replicate 64 CHR ''f'') counter_random demo ''Hello world.'' ''Hello.''
          (run_inference_metadata (\<lambda>s. replicate 64 CHR ''f'') demo ''Hello world.'' ''Hello.'' 150 30 0) 7
        = (Inl (RuntimeError ValueError), g'))"
proof -
  note ok = roundtrip_unless_seed_overflow [OF hexdigest_checksum refl demo_commitment,
      where R = counter_random and g = 7]
  note bad = roundtrip_unless_seed_overflow [OF hexdigest_all_f refl all_f_commitment,
      where R = counter_random and g = 7]
  from ok bad hexdigest_checksum hexdigest_all_f show ?thesis by simp
qed

subsection \<open>Tampering, rejection and what is never read\<close>

lemma public_signals_first_three:
  assumes "public_signals_of (run_inference_metadata H self text summary mx mn ts) = Inr ps"
  shows "index (PyList ps) 0 = Inr (PyStr (take 16 (H text)))"
    and "index (PyList ps) 1 = Inr (PyStr (take 16 (H summary)))"
    and "index (PyList ps) 2 = Inr (PyStr (take 16 (model_hash self)))"
  using assms by (auto simp: metadata_public_signals index_def)

lemma accepted_signals:
  assumes "accepted H self text summary art" and "map_of art ''public_signals'' = Some ps"
  shows "index ps 0 = Inr (PyStr (take 16 (H text)))"
    and "index ps 1 = Inr (PyStr (take 16 (H summary)))"
    and "index ps 2 = Inr (PyStr (take 16 (model_hash self)))"
  using assms by (auto simp: accepted_def)

text \<open>
  C2. With the artifact synthesized from the metadata of (text, summary) held fixed, a
  change of the text, of the summary or of the model hash that alters the first 16
  characters of the corresponding digest makes \<^verbatim>\<open>verify_inference\<close> return
  \<^verbatim>\<open>False\<close>. The result is a bare boolean: there is no reason with it.
\<close>

theorem tampering_rejected:
  assumes "fst (generate_zk_proof H R self text summary
                  (run_inference_metadata H self text summary max_length min_length timestamp) g)
           = Inr art"
  shows "(take 16 (H text') \<noteq> take 16 (H text) \<longrightarrow>
            verify_inference H self text' summary art = Inr False)
       \<and> (take 16 (H summary') \<noteq> take 16 (H summary) \<longrightarrow>
            verify_inference H self text summary' art = Inr False)
       \<and> (take 16 (model_hash self') \<noteq> take 16 (model_hash self) \<longrightarrow>
            verify_inference H self' text summary art = Inr False)"
proof -
  from generate_zk_proof_Inr [OF assms] obtain ps where
    ps: "public_signals_of (run_inference_metadata H self text summary max_length min_length timestamp) = Inr ps"
    and art: "map_of art ''public_signals'' = Some (PyList ps)"
    by auto
  note s = public_signals_first_three [OF ps]
  show ?thesis
  proof (intro conjI impI)
    assume ne: "take 16 (H text') \<noteq> take 16 (H text)"
    have "\<not> accepted H self text' summary art"
      using accepted_signals(1) [OF _ art, of H self text' summary] s(1) ne by auto
    then show "verify_inference H self text' summary art = Inr False"
      by (simp add: verify_inference_total)
  next
    assume ne: "take 16 (H summary') \<noteq> take 16 (H summary)"
    have "\<not> accepted H self text summary' art"
      using accepted_signals(2) [OF _ art, of H self "text" summary'] s(2) ne by auto
    then show "verify_inference H self text summary' art = Inr False"
      by (simp add: verify_inference_total)
  next
    assume ne: "take 16 (model_hash self') \<noteq> take 16 (model_hash self)"
    have "\<not> accepted H self' text summary art"
      using accepted_signals(3) [OF _ art, of H self' "text" summary] s(3) ne by auto
    then show "verify_inference H self' text summary art = Inr False"
      by (simp add: verify_inference_total)
  qed
qed

text \<open>
  C10. Two artifacts that agree on every key but \<^verbatim>\<open>pi_a\<close>, \<^verbatim>\<open>pi_b\<close> and
  \<^verbatim>\<open>pi_c\<close>, and both have these three keys, verify alike: the values stored under
  the three keys are never read.
\<close>

theorem verification_ignores_proof_points:
  assumes "\<forall>k. k \<notin> {''pi_a'', ''pi_b'', ''pi_c''} \<longrightarrow> map_of art1 k = map_of art2 k"
    and "contains art1 ''pi_a''" and "contains art1 ''pi_b''" and "contains art1 ''pi_c''"
    and "contains art2 ''pi_a''" and "contains art2 ''pi_b''" and "contains art2 ''pi_c''"
  shows "verify_inference H self text summary art1 = verify_inference H self text summary art2"
proof -
  from assms(1) have "map_of art1 ''public_signals'' = map_of art2 ''public_signals''"
    "map_of art1 ''commitment'' = map_of art2 ''commitment''"
    "map_of art1 ''circuit_inputs'' = map_of art2 ''circuit_inputs''"
    by simp_all
  with assms(2-) have "accepted H self text summary art1 = accepted H self text summary art2"
    by (simp add: accepted_def)
  then show ?thesis by (simp add: verify_inference_total)
qed

text \<open>
  C7. \<^verbatim>\<open>verify_inference\<close> returns a boolean on every text, summary and
  artifact: an exception of its body is caught and becomes \<^verbatim>\<open>False\<close>, and a
  body that finishes gives its own result. No reason is returned with it.
\<close>

theorem verify_inference_never_raises:
  "(\<exists>b. verify_inference H self text summary art = Inr b)
   \<and> (\<forall>e. verify_inference_body H self text summary art = Inl e \<longrightarrow>
          verify_inference H self text summary art = Inr False)
   \<and> (\<forall>b. verify_inference_body H self text summary art = Inr b \<longrightarrow>
          verify_inference H self text summary art = Inr b)"
  by (cases "verify_inference_body H self text summary art") (auto simp: verify_inference_def)

text \<open>
  C6. An artifact that lacks \<^verbatim>\<open>pi_a\<close>, \<^verbatim>\<open>pi_b\<close>, \<^verbatim>\<open>pi_c\<close>,
  \<^verbatim>\<open>public_signals\<close>, \<^verbatim>\<open>commitment\<close> or \<^verbatim>\<open>circuit_inputs\<close>, or
  whose \<^verbatim>\<open>public_signals\<close> has a length other than 4, is rejected:
  \<^verbatim>\<open>verify_inference\<close> returns \<^verbatim>\<open>False\<close>. The shapes of the three proof
  points are not looked at.
\<close>

theorem structural_rejection:
  assumes "\<not> contains art ''pi_a'' \<or> \<not> contains art ''pi_b'' \<or> \<not> contains art ''pi_c''
         \<or> \<not> contains art ''public_signals'' \<or> \<not> contains art ''commitment''
         \<or> \<not> contains art ''circuit_inputs''
         \<or> (\<exists>ps. getitem art ''public_signals'' = Inr ps \<and> len ps \<noteq> Inr 4)"
  shows "verify_inference H self text summary art = Inr False"
proof -
  have "\<not> accepted H self text summary art"
    using assms by (auto simp: accepted_def contains_def getitem_Inr)
  then show ?thesis by (simp add: verify_inference_total)
qed

lemma circuit_inputs_missing:
  assumes "k \<in> set required_fields" and "map_of metadata k = None"
  shows "\<exists>k'. k' \<in> set required_fields \<and> map_of metadata k' = None
           \<and> circuit_inputs_of metadata = Inl (KeyError (PyStr k'))"
proof -
  consider
      (a) "map_of metadata ''input_hash'' = None"
    | (b) ih where "map_of metadata ''input_hash'' = Some ih"
        "map_of metadata ''output_hash'' = None"
    | (c) ih oh where "map_of metadata ''input_hash'' = Some ih"
        "map_of metadata ''output_hash'' = Some oh" "map_of metadata ''model_hash'' = None"
    | (d) ih oh mh where "map_of metadata ''input_hash'' = Some ih"
        "map_of metadata ''output_hash'' = Some oh" "map_of metadata ''model_hash'' = Some mh"
        "map_of metadata ''input_length'' = None"
    | (e) ih oh mh il where "map_of metadata ''input_hash'' = Some ih"
        "map_of metadata ''output_hash'' = Some oh" "map_of metadata ''model_hash'' = Some mh"
        "map_of metadata ''input_length'' = Some il" "map_of metadata ''output_length'' = None"
    | (f) ih oh mh il ol where "map_of metadata ''input_hash'' = Some ih"
        "map_of metadata ''output_hash'' = Some oh" "map_of metadata ''model_hash'' = Some mh"
        "map_of metadata ''input_length'' = Some il" "map_of metadata ''output_length'' = Some ol"
        "map_of metadata ''verification_key'' = None"
    | (g) "map_of metadata ''input_hash'' \<noteq> None" "map_of metadata ''output_hash'' \<noteq> None"
        "map_of metadata ''model_hash'' \<noteq> None" "map_of metadata ''input_length'' \<noteq> None"
        "map_of metadata ''output_length'' \<noteq> None"
        "map_of metadata ''verification_key'' \<noteq> None"
    by blast
  then show ?thesis
  proof cases
    case a
    then show ?thesis
      by (intro exI [of _ "''input_hash''"])
         (simp add: required_fields_def circuit_inputs_of_def getitem_def)
  next
    case b
    then show ?thesis
      by (intro exI [of _ "''output_hash''"])
         (simp add: required_fields_def circuit_inputs_of_def getitem_def)
  next
    case c
    then show ?thesis
      by (intro exI [of _ "''model_hash''"])
         (simp add: required_fields_def circuit_inputs_of_def getitem_def)
  next
    case d
    then show ?thesis
      by (intro exI [of _ "''input_length''"])
         (simp add: required_fields_def circuit_inputs_of_def getitem_def)
  next
    case e
    then show ?thesis
      by (intro exI [of _ "''output_length''"])
         (simp add: required_fields_def circuit_inputs_of_def getitem_def)
  next
    case f
    then show ?thesis
      by (intro exI [of _ "''verification_key''"])
         (simp add: required_fields_def circuit_inputs_of_def getitem_def)
  next
    case g
    from assms(1) have "map_of metadata k \<noteq> None"
      unfolding required_fields_def using g by auto
    with assms(2) show ?thesis by simp
  qed
qed

text \<open>
  C9. When one of the six fields that \<^verbatim>\<open>generate_zk_proof\<close> reads is absent from
  the metadata, the call fails, before the generator is touched, with the
  \<^verbatim>\<open>RuntimeError\<close> that wraps the \<^verbatim>\<open>KeyError\<close> of the first absent field:
  the one kind of error the function raises.
\<close>

theorem missing_field_fails:
  assumes "k \<in> set required_fields" and "\<not> contains metadata k"
  shows "\<exists>k'. k' \<in> set required_fields \<and> \<not> contains metadata k'
           \<and> generate_zk_proof H R self text summary metadata g
               = (Inl (RuntimeError (KeyError (PyStr k'))), g)"
proof -
  from assms have "map_of metadata k = None" by (simp add: contains_def)
  from circuit_inputs_missing [OF assms(1) this] obtain k' where k':
    "k' \<in> set required_fields" "map_of metadata k' = None"
    "circuit_inputs_of metadata = Inl (KeyError (PyStr k'))"
    by blast
  from k'(3) have "generate_zk_proof H R self text summary metadata g
      = (Inl (RuntimeError (KeyError (PyStr k'))), g)"
    by (simp add: generate_zk_proof_def generate_zk_proof_body_def)
  with k'(1,2) show ?thesis by (auto simp: contains_def)
qed

lemma circuit_inputs_of_Inr:
  assumes "circuit_inputs_of metadata = Inr ci"
  shows "\<exists>ih oh mh il ol vk.
           map_of metadata ''input_hash'' = Some ih \<and> map_of metadata ''output_hash'' = Some oh
         \<and> map_of metadata ''model_hash'' = Some mh \<and> map_of metadata ''input_length'' = Some il
         \<and> map_of metadata ''output_length'' = Some ol
         \<and> map_of metadata ''verification_key'' = Some vk
         \<and> ci = [(''input_hash'', ih), (''output_hash'', oh), (''model_hash'', mh),
                 (''input_length'', PyStr (py_str il)), (''output_length'', PyStr (py_str ol)),
                 (''verification_key'', vk)]"
  using assms
  by (auto simp: circuit_inputs_of_def getitem_def split: option.splits)

lemma public_signals_of_Inr:
  assumes "public_signals_of metadata = Inr ps"
  shows "\<exists>ih oh mh vk s0 s1 s2 s3.
           map_of metadata ''input_hash'' = Some ih \<and> map_of metadata ''output_hash'' = Some oh
         \<and> map_of metadata ''model_hash'' = Some mh
         \<and> map_of metadata ''verification_key'' = Some vk
         \<and> slice_to 16 ih = Inr s0 \<and> slice_to 16 oh = Inr s1
         \<and> slice_to 16 mh = Inr s2 \<and> slice_to 16 vk = Inr s3
         \<and> ps = [s0, s1, s2, s3]"
  using assms
  by (auto simp: public_signals_of_def getitem_def bind_Inr_iff split: option.splits)

lemma canonical_circuit_inputs:
  "canonical [(''input_hash'', ih), (''output_hash'', oh), (''model_hash'', mh),
              (''input_length'', il), (''output_length'', ol), (''verification_key'', vk)]
   = ''input_hash:'' @ py_str ih @ ''input_length:'' @ py_str il @ ''model_hash:'' @ py_str mh
     @ ''output_hash:'' @ py_str oh @ ''output_length:'' @ py_str ol
     @ ''verification_key:'' @ py_str vk"
  by (simp add: canonical_def)

lemma length_draws: "length (fst (draws R n g)) = n"
proof (induction n arbitrary: g)
  case 0
  then show ?case by simp
next
  case (Suc n)
  obtain i g1 where r: "randint R 1 1000 g = (i, g1)" by (cases "randint R 1 1000 g")
  obtain xs g2 where rs: "draws R n g1 = (xs, g2)" by (cases "draws R n g1")
  from Suc [of g1] r rs show ?case by simp
qed

lemma draw_rows_shape:
  "length (fst (draw_rows R m n g)) = m
   \<and> (\<forall>row \<in> set (fst (draw_rows R m n g)). \<exists>xs. row = PyList xs \<and> length xs = n)"
proof (induction m arbitrary: g)
  case 0
  then show ?case by simp
next
  case (Suc m)
  obtain row g1 where r: "draws R n g = (row, g1)" by (cases "draws R n g")
  obtain rows g2 where rs: "draw_rows R m n g1 = (rows, g2)" by (cases "draw_rows R m n g1")
  from length_draws [of R n g] r have "length row = n" by simp
  with Suc [of g1] r rs show ?case by simp
qed

lemma draws_in_range:
  assumes "randint_in_range R"
  shows "\<forall>x \<in> set (fst (draws R n g)). \<exists>i. x = PyStr (str_int i) \<and> 1 \<le> i \<and> i < 1000"
proof (induction n arbitrary: g)
  case 0
  then show ?case by simp
next
  case (Suc n)
  obtain i g1 where r: "randint R 1 1000 g = (i, g1)" by (cases "randint R 1 1000 g")
  obtain xs g2 where rs: "draws R n g1 = (xs, g2)" by (cases "draws R n g1")
  from assms have "1 \<le> fst (randint R 1 1000 g) \<and> fst (randint R 1 1000 g) < 1000"
    unfolding randint_in_range_def by simp
  with r have "1 \<le> i" "i < 1000" by simp_all
  with Suc [of g1] r rs show ?case by auto
qed

lemma draw_rows_in_range:
  assumes "randint_in_range R"
  shows "\<forall>row \<in> set (fst (draw_rows R m n g)). \<exists>xs. row = PyList xs
           \<and> (\<forall>x \<in> set xs. \<exists>i. x = PyStr (str_int i) \<and> 1 \<le> i \<and> i < 1000)"
proof (induction m arbitrary: g)
  case 0
  then show ?case by simp
next
  case (Suc m)
  obtain row g1 where r: "draws R n g = (row, g1)" by (cases "draws R n g")
  obtain rows g2 where rs: "draw_rows R m n g1 = (rows, g2)" by (cases "draw_rows R m n g1")
  from draws_in_range [OF assms, of n g] r
  have "\<forall>x \<in> set row. \<exists>i. x = PyStr (str_int i) \<and> 1 \<le> i \<and> i < 1000" by simp
  with Suc [of g1] r rs show ?case by simp
qed

text \<open>
  C5. Every artifact that \<^verbatim>\<open>generate_zk_proof\<close> returns has (a) as commitment the
  digest of its circuit inputs in canonical form, the six names in lexicographic order,
  each followed by a colon and its value, with nothing between the pairs, so that
  \<^verbatim>\<open>_verify_commitment\<close> accepts it; (b) as public signals the 16-character prefixes
  of the input hash, the output hash, the model hash and the verification key of its
  circuit inputs; (c) three entries in \<^verbatim>\<open>pi_a\<close> and in \<^verbatim>\<open>pi_c\<close>, and three
  rows of two entries in \<^verbatim>\<open>pi_b\<close>.
\<close>

theorem artifact_invariants:
  assumes "generate_zk_proof H R self text summary metadata g = (Inr art, g')"
  shows "\<exists>ih oh mh il ol vk s0 s1 s2 s3 pa pb pc.
           art = [(''pi_a'', PyList pa), (''pi_b'', PyList pb), (''pi_c'', PyList pc),
                  (''protocol'', PyStr ''groth16''), (''curve'', PyStr ''bn128''),
                  (''public_signals'', PyList [s0, s1, s2, s3]),
                  (''commitment'',
                     PyStr (H (''input_hash:'' @ py_str ih @ ''input_length:'' @ il
                               @ ''model_hash:'' @ py_str mh @ ''output_hash:'' @ py_str oh
                               @ ''output_length:'' @ ol @ ''verification_key:'' @ py_str vk))),
                  (''circuit_inputs'',
                     PyDict [(''input_hash'', ih), (''output_hash'', oh), (''model_hash'', mh),
                             (''input_length'', PyStr il), (''output_length'', PyStr ol),
                             (''verification_key'', vk)])]
         \<and> verify_commitment H (PyStr (H (''input_hash:'' @ py_str ih @ ''input_length:'' @ il
                               @ ''model_hash:'' @ py_str mh @ ''output_hash:'' @ py_str oh
                               @ ''output_length:'' @ ol @ ''verification_key:'' @ py_str vk)))
              (PyDict [(''input_hash'', ih), (''output_hash'', oh), (''model_hash'', mh),
                       (''input_length'', PyStr il), (''output_length'', PyStr ol),
                       (''verification_key'', vk)]) = Inr True
         \<and> slice_to 16 ih = Inr s0 \<and> slice_to 16 oh = Inr s1
         \<and> slice_to 16 mh = Inr s2 \<and> slice_to 16 vk = Inr s3
         \<and> length pa = 3 \<and> length pc = 3 \<and> length pb = 3
         \<and> (\<forall>row \<in> set pb. \<exists>xs. row = PyList xs \<and> length xs = 2)"
proof -
  from assms have "fst (generate_zk_proof H R self text summary metadata g) = Inr art" by simp
  from generate_zk_proof_Inr [OF this] obtain ci ps n where
    ci: "circuit_inputs_of metadata = Inr ci" and ps: "public_signals_of metadata = Inr ps"
    and art: "art = [(''pi_a'', PyList (fst (draws R 3 (seeded R (nat n))))),
                  (''pi_b'', PyList (fst (draw_rows R 3 2 (seeded R (nat (n + 1)))))),
                  (''pi_c'', PyList (fst (draws R 3 (seeded R (nat n))))),
                  (''protocol'', PyStr ''groth16''),
                  (''curve'', PyStr ''bn128''),
                  (''public_signals'', PyList ps),
                  (''commitment'', PyStr (H (canonical ci))),
                  (''circuit_inputs'', PyDict ci)]"
    by blast
  from circuit_inputs_of_Inr [OF ci] obtain ih oh mh il ol vk where m:
    "map_of metadata ''input_hash'' = Some ih" "map_of metadata ''output_hash'' = Some oh"
    "map_of metadata ''model_hash'' = Some mh" "map_of metadata ''verification_key'' = Some vk"
    and ci_eq: "ci = [(''input_hash'', ih), (''output_hash'', oh), (''model_hash'', mh),
                 (''input_length'', PyStr (py_str il)), (''output_length'', PyStr (py_str ol)),
                 (''verification_key'', vk)]"
    by blast
  from public_signals_of_Inr [OF ps] m obtain s0 s1 s2 s3 where s:
    "slice_to 16 ih = Inr s0" "slice_to 16 oh = Inr s1" "slice_to 16 mh = Inr s2"
    "slice_to 16 vk = Inr s3" "ps = [s0, s1, s2, s3]"
    by auto
  have can: "canonical ci = ''input_hash:'' @ py_str ih @ ''input_length:'' @ py_str il
      @ ''model_hash:'' @ py_str mh @ ''output_hash:'' @ py_str oh @ ''output_length:'' @ py_str ol
      @ ''verification_key:'' @ py_str vk"
    unfolding ci_eq canonical_circuit_inputs by (simp add: py_str_def)
  have vc: "verify_commitment H (PyStr (H (canonical ci))) (PyDict ci) = Inr True"
    by (simp add: verify_commitment_True)
  note shape = draw_rows_shape [of R 3 2 "seeded R (nat (n + 1))"]
  show ?thesis
    apply (rule exI [of _ ih], rule exI [of _ oh], rule exI [of _ mh])
    apply (rule exI [of _ "py_str il"], rule exI [of _ "py_str ol"], rule exI [of _ vk])
    apply (rule exI [of _ s0], rule exI [of _ s1], rule exI [of _ s2], rule exI [of _ s3])
    apply (rule exI [of _ "fst (draws R 3 (seeded R (nat n)))"])
    apply (rule exI [of _ "fst (draw_rows R 3 2 (seeded R (nat (n + 1))))"])
    apply (rule exI [of _ "fst (draws R 3 (seeded R (nat n)))"])
    using art s vc shape unfolding can [symmetric]
    by (simp add: length_draws ci_eq [symmetric])
qed

text \<open>
  C8. For a commitment whose first eight characters are hexadecimal digits of value
  \<open>n\<close>: \<^verbatim>\<open>_generate_proof_point\<close> seeds the generator with \<open>n\<close> and returns
  three draws of \<^verbatim>\<open>randint(1, 1000)\<close>; \<^verbatim>\<open>_generate_proof_matrix\<close> seeds it
  with \<open>n\<close> plus the length of its suffix and returns three rows of two draws when that
  seed is at most \<open>2\<^sup>3\<^sup>2 - 1\<close>, and raises \<^verbatim>\<open>ValueError\<close> when it is not;
  every entry is the decimal string of an integer from 1 to 999 when the library's
  \<^verbatim>\<open>randint\<close> keeps its range.
\<close>

theorem proof_points_seeded:
  assumes "int_base16 (take 8 commitment) = Inr n"
  shows "0 \<le> n \<and> n \<le> 2 ^ 32 - 1
       \<and> generate_proof_point R commitment suffix g
           = (Inr (PyList (fst (draws R 3 (seeded R (nat n))))), snd (draws R 3 (seeded R (nat n))))
       \<and> (n + int (length suffix) \<le> 2 ^ 32 - 1 \<longrightarrow>
            generate_proof_matrix R commitment suffix g
              = (Inr (PyList (fst (draw_rows R 3 2 (seeded R (nat (n + int (length suffix))))))),
                 snd (draw_rows R 3 2 (seeded R (nat (n + int (length suffix)))))))
       \<and> (2 ^ 32 - 1 < n + int (length suffix) \<longrightarrow>
            generate_proof_matrix R commitment suffix g = (Inl ValueError, g))
       \<and> (randint_in_range R \<longrightarrow>
            (\<forall>x \<in> set (fst (draws R 3 (seeded R (nat n)))).
               \<exists>i. x = PyStr (str_int i) \<and> 1 \<le> i \<and> i < 1000)
          \<and> (\<forall>row \<in> set (fst (draw_rows R 3 2 (seeded R (nat (n + int (length suffix)))))).
               \<exists>xs. row = PyList xs \<and> length xs = 2
                 \<and> (\<forall>x \<in> set xs. \<exists>i. x = PyStr (str_int i) \<and> 1 \<le> i \<and> i < 1000)))"
proof -
  note nb = int_base16_prefix_bounds [OF assms]
  have range: "(\<forall>x \<in> set (fst (draws R 3 (seeded R (nat n)))).
               \<exists>i. x = PyStr (str_int i) \<and> 1 \<le> i \<and> i < 1000)
          \<and> (\<forall>row \<in> set (fst (draw_rows R 3 2 (seeded R (nat (n + int (length suffix)))))).
               \<exists>xs. row = PyList xs \<and> length xs = 2
                 \<and> (\<forall>x \<in> set xs. \<exists>i. x = PyStr (str_int i) \<and> 1 \<le> i \<and> i < 1000))"
    if R: "randint_in_range R"
    using draws_in_range [OF R, of 3 "seeded R (nat n)"]
      draw_rows_in_range [OF R, of 3 2 "seeded R (nat (n + int (length suffix)))"]
      draw_rows_shape [of R 3 2 "seeded R (nat (n + int (length suffix)))"]
    by fastforce
  from nb generate_proof_point_seeded [OF assms nb, of R suffix g]
    generate_proof_matrix_seeded [OF assms nb(1), of suffix R g]
    generate_proof_matrix_overflow [OF assms, of suffix R g] range
  show ?thesis by blast
qed

end
